theory Spec2Isabelle
  imports Main
begin

section \<open>Go values used by package amiclean\<close>

text \<open>
  A Go pointer is an \<open>option\<close>: \<open>None\<close> is \<open>nil\<close>. Dereferencing \<open>nil\<close> is a run-time
  panic, which is an outcome of its own (\<open>Inl NilPointerDereference\<close>) in every function
  that dereferences. A Go \<open>error\<close> value is an \<open>error option\<close>, \<open>None\<close> being \<open>nil\<close>.
  A \<open>time.Time\<close> is the instant it denotes, counted in nanoseconds from the zero time
  (January 1, year 1, 00:00:00 UTC), so the zero \<open>Time\<close> is \<open>0\<close>.
\<close>

datatype error = Error string

datatype panic = NilPointerDereference

type_synonym Time = int

definition zeroTime :: Time where
  "zeroTime = 0"

definition After :: "Time \<Rightarrow> Time \<Rightarrow> bool" where
  "After t u = (u < t)"

definition RFC8601 :: string where
  "RFC8601 = ''2006-01-02T15:04:05.000Z''"

text \<open>
  \<open>strings.HasPrefix s prefix\<close> is
  \<open>len(s) >= len(prefix) && s[0:len(prefix)] == prefix\<close>.
\<close>

definition HasPrefix :: "string \<Rightarrow> string \<Rightarrow> bool" where
  "HasPrefix s p = (length p \<le> length s \<and> take (length p) s = p)"

text \<open>
  Package \<open>time\<close> is not part of the repository. What a string denotes in a layout
  (\<open>parse_layout\<close>) and how an instant prints (\<open>Time_String\<close>) are parameters; \<open>time.Parse\<close>
  returns the zero \<open>Time\<close> together with the error whenever the string does not parse, as
  every error return of the library function does.
\<close>

record timepkg =
  parse_layout :: "string \<Rightarrow> string \<Rightarrow> Time option"
  Time_String :: "Time \<Rightarrow> string"

definition time_Parse :: "timepkg \<Rightarrow> string \<Rightarrow> string \<Rightarrow> Time \<times> error option" where
  "time_Parse tp layout v =
     (case parse_layout tp layout v of
        None \<Rightarrow> (zeroTime, Some (Error ''parsing time''))
      | Some t \<Rightarrow> (t, None))"

section \<open>The EC2 data model\<close>

text \<open>
  The structs of \<open>service/ec2\<close> with the fields the package reads or writes. Every field
  of an SDK struct is a pointer or a slice of pointers. Where two structs of the SDK have
  a field of the same name, the later record's field carries the struct's name as a
  prefix (\<open>Filter.Name\<close> is \<open>FilterName\<close>, \<open>DeregisterImageInput.ImageId\<close> is
  \<open>DeregisterImageId\<close>, and so on).
\<close>

record Tag =
  Key :: "string option"
  Value :: "string option"

record EbsBlockDevice =
  SnapshotId :: "string option"

record BlockDeviceMapping =
  DeviceName :: "string option"
  VirtualName :: "string option"
  Ebs :: "EbsBlockDevice option"

record Image =
  ImageId :: "string option"
  Name :: "string option"
  CreationDate :: "string option"
  RootDeviceType :: "string option"
  Tags :: "Tag option list"
  BlockDeviceMappings :: "BlockDeviceMapping option list"

record Instance =
  InstanceId :: "string option"

record Reservation =
  Instances :: "Instance option list"

record DescribeImagesInput =
  Owners :: "string option list"

record DescribeImagesOutput =
  Images :: "Image option list"

record Filter =
  FilterName :: "string option"
  Values :: "string option list"

record DescribeInstancesInput =
  Filters :: "Filter option list"

text \<open>
  \<open>CheckUnused\<close> compares the \<open>Reservations\<close> slice with \<open>nil\<close>, so the slice keeps the
  difference between \<open>nil\<close> (\<open>None\<close>) and a slice that is not \<open>nil\<close> (\<open>Some xs\<close>, where
  \<open>xs\<close> may be empty).
\<close>

record DescribeInstancesOutput =
  Reservations :: "Reservation option list option"

record DeregisterImageInput =
  DeregisterDryRun :: "bool option"
  DeregisterImageId :: "string option"

record DeleteSnapshotInput =
  DeleteDryRun :: "bool option"
  DeleteSnapshotId :: "string option"

section \<open>The cloud, the logger and the state\<close>

text \<open>
  The EC2 service is outside the program. Its state is a value of an arbitrary type
  \<open>'w\<close>; every operation of the client takes the state and its input and returns the
  Go pair (output pointer, error) and the next state. The outputs of \<open>DeregisterImage\<close>
  and \<open>DeleteSnapshot\<close> are empty structs.

  Every call of the client and every call of the \<open>zap\<close> logger is appended to a trace,
  in the order the program makes them.
\<close>

record 'w EC2 =
  DescribeImages ::
    "'w \<Rightarrow> DescribeImagesInput \<Rightarrow> (DescribeImagesOutput option \<times> error option) \<times> 'w"
  DescribeInstances ::
    "'w \<Rightarrow> DescribeInstancesInput \<Rightarrow> (DescribeInstancesOutput option \<times> error option) \<times> 'w"
  DeregisterImage ::
    "'w \<Rightarrow> DeregisterImageInput \<Rightarrow> (unit option \<times> error option) \<times> 'w"
  DeleteSnapshot ::
    "'w \<Rightarrow> DeleteSnapshotInput \<Rightarrow> (unit option \<times> error option) \<times> 'w"

datatype level = DebugLevel | InfoLevel | ErrorLevel

datatype Field = zap_String string string | zap_Error error

datatype event =
    CallDescribeImages DescribeImagesInput
  | CallDescribeInstances DescribeInstancesInput
  | CallDeregisterImage DeregisterImageInput
  | CallDeleteSnapshot DeleteSnapshotInput
  | Log level string "Field list"

record 'w state =
  world :: 'w
  trace :: "event list"

definition Logger_log :: "level \<Rightarrow> string \<Rightarrow> Field list \<Rightarrow> 'w state \<Rightarrow> 'w state" where
  "Logger_log lv msg fs s = s\<lparr>trace := trace s @ [Log lv msg fs]\<rparr>"

definition called :: "event \<Rightarrow> 'w \<Rightarrow> 'w state \<Rightarrow> 'w state" where
  "called e w s = \<lparr>world = w, trace = trace s @ [e]\<rparr>"

text \<open>
  \<open>AMIClean\<close> as the struct declares it. The \<open>Logger\<close> field is the trace; the
  \<open>EC2Client\<close> field is the client's operations. Both pointers, and the receiver of every
  method, are taken to be set.
\<close>

record 'w AMIClean =
  NamePrefix :: string
  Delete :: bool
  Tag :: "Tag option"
  Invert :: bool
  Unused :: bool
  ExpirationDate :: Time
  EC2Client :: "'w EC2"

section \<open>GetImages\<close>

definition GetImages ::
  "'w AMIClean \<Rightarrow> 'w state \<Rightarrow> (DescribeImagesOutput option \<times> error option) \<times> 'w state" where
  "GetImages a s =
     (let input = \<lparr>Owners = [Some ''self'']\<rparr> in
      case DescribeImages (EC2Client a) (world s) input of
        ((output, err), w) \<Rightarrow>
          let s' = called (CallDescribeImages input) w s in
          if err \<noteq> None then ((None, err), s') else ((output, None), s'))"

section \<open>matchTags\<close>

text \<open>
  The loop over \<open>image.Tags\<close>. Both results of the Go function are kept; the tag it
  returns is the image's tag with the key, or a filler tag with the value
  \<open>not found\<close>.
\<close>

fun matchTags_range :: "Tag option list \<Rightarrow> Tag option \<Rightarrow> panic + (bool \<times> Tag option)" where
  "matchTags_range [] tag =
     (case tag of
        None \<Rightarrow> Inl NilPointerDereference
      | Some t \<Rightarrow> Inr (False, Some \<lparr>Key = Key t, Value = Some ''not found''\<rparr>))"
| "matchTags_range (imageTag # rest) tag =
     (case tag of None \<Rightarrow> Inl NilPointerDereference | Some t \<Rightarrow>
     (case Key t of None \<Rightarrow> Inl NilPointerDereference | Some k \<Rightarrow>
     (case imageTag of None \<Rightarrow> Inl NilPointerDereference | Some it \<Rightarrow>
     (case Key it of None \<Rightarrow> Inl NilPointerDereference | Some ik \<Rightarrow>
        if k = ik then
          (case Value t of None \<Rightarrow> Inl NilPointerDereference | Some v \<Rightarrow>
          (case Value it of None \<Rightarrow> Inl NilPointerDereference | Some iv \<Rightarrow>
             if v = iv then Inr (True, imageTag) else Inr (False, imageTag)))
        else matchTags_range rest tag))))"

definition matchTags :: "Image \<Rightarrow> Tag option \<Rightarrow> panic + (bool \<times> Tag option)" where
  "matchTags img tag = matchTags_range (Tags img) tag"

section \<open>CheckUnused\<close>

definition CheckUnused ::
  "'w AMIClean \<Rightarrow> Image \<Rightarrow> 'w state \<Rightarrow> (panic + (bool \<times> error option)) \<times> 'w state" where
  "CheckUnused a img s =
     (let amiFilter = \<lparr>FilterName = Some ''image-id'', Values = [ImageId img]\<rparr>;
          findInstancesInput = \<lparr>Filters = [Some amiFilter]\<rparr> in
      case DescribeInstances (EC2Client a) (world s) findInstancesInput of
        ((output, err), w) \<Rightarrow>
          let s' = called (CallDescribeInstances findInstancesInput) w s in
          if err \<noteq> None then (Inr (False, err), s')
          else
            (case output of
               None \<Rightarrow> (Inl NilPointerDereference, s')
             | Some out \<Rightarrow>
                 if Reservations out \<noteq> None then (Inr (False, None), s')
                 else (Inr (True, None), s')))"

section \<open>CheckImage\<close>

text \<open>
  The function in the order of the source: the name prefix, the age, the usage check
  when \<open>Unused\<close> is set, the tags. \<open>CheckImage_tags\<close> is the part from the call of
  \<open>matchTags\<close> to the end, \<open>CheckImage_unused\<close> the part from the test of \<open>a.Unused\<close> to
  the end; an early \<open>return\<close> of the source is a branch that does not go on to the next
  part. The arguments of a logger call are evaluated before the call, so a \<open>nil\<close> among
  them panics before anything is logged.
\<close>

definition CheckImage_tags ::
  "timepkg \<Rightarrow> 'w AMIClean \<Rightarrow> Image \<Rightarrow> Time \<Rightarrow> 'w state \<Rightarrow> (panic + bool) \<times> 'w state" where
  "CheckImage_tags tp a img imageCreationTime s =
     (case matchTags img (Tag a) of
        Inl p \<Rightarrow> (Inl p, s)
      | Inr (match, matchedTag) \<Rightarrow>
          if Invert a \<noteq> match then
            (case ImageId img of None \<Rightarrow> (Inl NilPointerDereference, s) | Some iid \<Rightarrow>
            (case Name img of None \<Rightarrow> (Inl NilPointerDereference, s) | Some name \<Rightarrow>
            (case matchedTag of None \<Rightarrow> (Inl NilPointerDereference, s) | Some mt \<Rightarrow>
            (case Key mt of None \<Rightarrow> (Inl NilPointerDereference, s) | Some mk \<Rightarrow>
            (case Value mt of None \<Rightarrow> (Inl NilPointerDereference, s) | Some mv \<Rightarrow>
               (Inr True,
                Logger_log DebugLevel ''ami matched selection criteria''
                  [zap_String ''ami-id'' iid,
                   zap_String ''ami-name'' name,
                   zap_String ''ami-tag-key'' mk,
                   zap_String ''ami-tag-value'' mv,
                   zap_String ''ami-creation-date'' (Time_String tp imageCreationTime)] s))))))
          else (Inr False, s))"

definition CheckImage_unused ::
  "timepkg \<Rightarrow> 'w AMIClean \<Rightarrow> Image \<Rightarrow> Time \<Rightarrow> 'w state \<Rightarrow> (panic + bool) \<times> 'w state" where
  "CheckImage_unused tp a img imageCreationTime s =
     (if Unused a then
        (case CheckUnused a img s of
           (Inl p, s1) \<Rightarrow> (Inl p, s1)
         | (Inr (unused, err), s1) \<Rightarrow>
             (case err of
                Some e \<Rightarrow>
                  (case ImageId img of
                     None \<Rightarrow> (Inl NilPointerDereference, s1)
                   | Some iid \<Rightarrow>
                       (Inr False,
                        Logger_log ErrorLevel ''Could not check for image in use''
                          [zap_String ''ami-id'' iid, zap_Error e] s1))
              | None \<Rightarrow>
                  if \<not> unused then (Inr False, s1)
                  else CheckImage_tags tp a img imageCreationTime s1))
      else CheckImage_tags tp a img imageCreationTime s)"

definition CheckImage ::
  "timepkg \<Rightarrow> 'w AMIClean \<Rightarrow> Image \<Rightarrow> 'w state \<Rightarrow> (panic + bool) \<times> 'w state" where
  "CheckImage tp a img s =
     (case Name img of
        None \<Rightarrow> (Inl NilPointerDereference, s)
      | Some name \<Rightarrow>
          if \<not> HasPrefix name (NamePrefix a) then (Inr False, s)
          else
            (case CreationDate img of
               None \<Rightarrow> (Inl NilPointerDereference, s)
             | Some cd \<Rightarrow>
                 let imageCreationTime = fst (time_Parse tp RFC8601 cd) in
                 if After imageCreationTime (ExpirationDate a) then (Inr False, s)
                 else CheckImage_unused tp a img imageCreationTime s))"

section \<open>PurgeImage\<close>

text \<open>
  The first loop builds \<open>snapshotIds\<close> by appending a pointer to a copy of each mapping's
  snapshot ID; these pointers are never \<open>nil\<close>, so the list holds the strings.
\<close>

fun snapshotIds_range :: "BlockDeviceMapping option list \<Rightarrow> string list \<Rightarrow> panic + string list" where
  "snapshotIds_range [] snapshotIds = Inr snapshotIds"
| "snapshotIds_range (blockDevice # rest) snapshotIds =
     (case blockDevice of None \<Rightarrow> Inl NilPointerDereference | Some bd \<Rightarrow>
     (case Ebs bd of None \<Rightarrow> Inl NilPointerDereference | Some ebs \<Rightarrow>
     (case SnapshotId ebs of None \<Rightarrow> Inl NilPointerDereference | Some snapshotID \<Rightarrow>
        snapshotIds_range rest (snapshotIds @ [snapshotID]))))"

text \<open>
  The second loop. \<open>Some r\<close> is the early \<open>return\<close> of the source with the values \<open>r\<close>;
  \<open>None\<close> is the loop running to its end.
\<close>

fun deleteSnapshots ::
  "'w AMIClean \<Rightarrow> string list \<Rightarrow> 'w state \<Rightarrow> (string \<times> error option) option \<times> 'w state" where
  "deleteSnapshots a [] s = (None, s)"
| "deleteSnapshots a (snapshot # rest) s =
     (let deleteInput = \<lparr>DeleteDryRun = Some (\<not> Delete a), DeleteSnapshotId = Some snapshot\<rparr> in
      if Delete a then
        (let s1 = Logger_log InfoLevel ''deleting snapshot''
                    [zap_String ''snapshot-id'' snapshot] s in
         case DeleteSnapshot (EC2Client a) (world s1) deleteInput of
           ((output, err), w) \<Rightarrow>
             let s2 = called (CallDeleteSnapshot deleteInput) w s1 in
             if err \<noteq> None then (Some (''Failed to delete snapshot'', err), s2)
             else deleteSnapshots a rest s2)
      else
        deleteSnapshots a rest
          (Logger_log InfoLevel ''would delete snapshot''
             [zap_String ''snapshot-id'' snapshot] s))"

definition PurgeImage_snapshots ::
  "'w AMIClean \<Rightarrow> string \<Rightarrow> string list \<Rightarrow> 'w state \<Rightarrow> (panic + (string \<times> error option)) \<times> 'w state" where
  "PurgeImage_snapshots a iid snapshotIds s =
     (case deleteSnapshots a snapshotIds s of
        (Some r, s') \<Rightarrow> (Inr r, s')
      | (None, s') \<Rightarrow> (Inr (iid, None), s'))"

definition PurgeImage ::
  "'w AMIClean \<Rightarrow> Image \<Rightarrow> 'w state \<Rightarrow> (panic + (string \<times> error option)) \<times> 'w state" where
  "PurgeImage a img s =
     (case RootDeviceType img of
        None \<Rightarrow> (Inl NilPointerDereference, s)
      | Some rootDeviceType \<Rightarrow>
          if rootDeviceType \<noteq> ''ebs'' then
            (case ImageId img of
               None \<Rightarrow> (Inl NilPointerDereference, s)
             | Some iid \<Rightarrow>
                 (Inr (iid, None),
                  Logger_log InfoLevel ''image root device not EBS; will not purge''
                    [zap_String ''ami-id'' iid] s))
          else
            (case snapshotIds_range (BlockDeviceMappings img) [] of
               Inl p \<Rightarrow> (Inl p, s)
             | Inr snapshotIds \<Rightarrow>
                 (case ImageId img of
                    None \<Rightarrow> (Inl NilPointerDereference, s)
                  | Some iid \<Rightarrow>
                      let deregisterInput =
                            \<lparr>DeregisterDryRun = Some (\<not> Delete a), DeregisterImageId = Some iid\<rparr> in
                      if Delete a then
                        (let s1 = Logger_log InfoLevel ''deregistering ami''
                                    [zap_String ''ami-id'' iid] s in
                         case DeregisterImage (EC2Client a) (world s1) deregisterInput of
                           ((output, err), w) \<Rightarrow>
                             let s2 = called (CallDeregisterImage deregisterInput) w s1 in
                             if err \<noteq> None then (Inr (''Failed to deregister image'', err), s2)
                             else PurgeImage_snapshots a iid snapshotIds s2)
                      else
                        PurgeImage_snapshots a iid snapshotIds
                          (Logger_log InfoLevel ''would deregister ami''
                             [zap_String ''ami-id'' iid] s))))"

section \<open>Predicates used in the statements\<close>

definition snapshot_of :: "BlockDeviceMapping option \<Rightarrow> string option" where
  "snapshot_of blockDevice =
     (case blockDevice of None \<Rightarrow> None | Some bd \<Rightarrow>
     (case Ebs bd of None \<Rightarrow> None | Some ebs \<Rightarrow> SnapshotId ebs))"

definition carries_snapshot :: "BlockDeviceMapping option \<Rightarrow> bool" where
  "carries_snapshot blockDevice = (snapshot_of blockDevice \<noteq> None)"

definition wf_Tag :: "Tag option \<Rightarrow> bool" where
  "wf_Tag tag = (case tag of None \<Rightarrow> False | Some t \<Rightarrow> Key t \<noteq> None \<and> Value t \<noteq> None)"

definition is_call :: "event \<Rightarrow> bool" where
  "is_call e = (case e of Log lv msg fs \<Rightarrow> False | _ \<Rightarrow> True)"

text \<open>
  The elements of the \<open>Reservations\<close> slice of an output; a \<open>nil\<close> slice has none.
\<close>

definition listed :: "DescribeInstancesOutput \<Rightarrow> Reservation option list" where
  "listed out = (case Reservations out of None \<Rightarrow> [] | Some rs \<Rightarrow> rs)"

section \<open>Example inputs\<close>

definition ex_time :: timepkg where
  "ex_time =
     \<lparr>parse_layout = (\<lambda>layout v.
        if layout = RFC8601 \<and> v = ''2019-03-01T12:00:00.000Z''
        then Some 63687038400000000000 else None),
      Time_String = (\<lambda>t. if t = 0 then ''0001-01-01 00:00:00 +0000 UTC'' else ''2019-03-01 12:00:00 +0000 UTC'')\<rparr>"

definition ex_image :: Image where
  "ex_image =
     \<lparr>ImageId = Some ''ami-1'',
      Name = Some ''app-master-42'',
      CreationDate = Some ''2019-03-01T12:00:00.000Z'',
      RootDeviceType = Some ''ebs'',
      Tags = [Some \<lparr>Key = Some ''Name'', Value = Some ''app''\<rparr>,
              Some \<lparr>Key = Some ''Branch'', Value = Some ''master''\<rparr>],
      BlockDeviceMappings =
        [Some \<lparr>DeviceName = Some ''/dev/sda1'', VirtualName = None,
                Ebs = Some \<lparr>SnapshotId = Some ''snap-1''\<rparr>\<rparr>,
         Some \<lparr>DeviceName = Some ''/dev/sdf'', VirtualName = None,
                Ebs = Some \<lparr>SnapshotId = Some ''snap-2''\<rparr>\<rparr>]\<rparr>"

definition ex_image_ephemeral :: Image where
  "ex_image_ephemeral =
     ex_image\<lparr>BlockDeviceMappings :=
        [Some \<lparr>DeviceName = Some ''/dev/sda1'', VirtualName = None,
                Ebs = Some \<lparr>SnapshotId = Some ''snap-1''\<rparr>\<rparr>,
         Some \<lparr>DeviceName = Some ''/dev/sdb'', VirtualName = Some ''ephemeral0'',
                Ebs = None\<rparr>]\<rparr>"

definition ex_image_instance_store :: Image where
  "ex_image_instance_store =
     ex_image\<lparr>RootDeviceType := Some ''instance-store'',
        BlockDeviceMappings :=
          [Some \<lparr>DeviceName = Some ''/dev/sdb'', VirtualName = Some ''ephemeral0'',
                  Ebs = None\<rparr>]\<rparr>"

definition ex_image_undated :: Image where
  "ex_image_undated = ex_image\<lparr>CreationDate := Some ''2019-03-01''\<rparr>"

definition ex_EC2 ::
  "DescribeImagesOutput option \<times> error option \<Rightarrow>
   DescribeInstancesOutput option \<times> error option \<Rightarrow> nat EC2" where
  "ex_EC2 images instances =
     \<lparr>DescribeImages = (\<lambda>w i. (images, Suc w)),
      DescribeInstances = (\<lambda>w i. (instances, Suc w)),
      DeregisterImage = (\<lambda>w i. ((Some (), None), Suc w)),
      DeleteSnapshot = (\<lambda>w i. ((Some (), None), Suc w))\<rparr>"

definition ex_clean :: "DescribeInstancesOutput option \<times> error option \<Rightarrow> nat AMIClean" where
  "ex_clean instances =
     \<lparr>NamePrefix = ''app-'',
      Delete = False,
      Tag = Some \<lparr>Key = Some ''Branch'', Value = Some ''master''\<rparr>,
      Invert = False,
      Unused = True,
      ExpirationDate = 63689716800000000000,
      EC2Client = ex_EC2 (Some \<lparr>Images = [Some ex_image]\<rparr>, None) instances\<rparr>"

definition ex_state :: "nat state" where
  "ex_state = \<lparr>world = 0, trace = []\<rparr>"

definition ex_unused :: "DescribeInstancesOutput option \<times> error option" where
  "ex_unused = (Some \<lparr>Reservations = None\<rparr>, None)"

definition ex_in_use :: "DescribeInstancesOutput option \<times> error option" where
  "ex_in_use =
     (Some \<lparr>Reservations = Some [Some \<lparr>Instances = [Some \<lparr>InstanceId = Some ''i-1''\<rparr>]\<rparr>]\<rparr>,
      None)"

definition ex_failed :: "DescribeInstancesOutput option \<times> error option" where
  "ex_failed = (Some \<lparr>Reservations = None\<rparr>, Some (Error ''RequestLimitExceeded''))"

section \<open>Properties\<close>

subsection \<open>The loops and the helpers\<close>

text \<open>
  \<open>HasPrefix\<close> is the prefix relation on strings.
\<close>

lemma HasPrefix_iff: "HasPrefix s p \<longleftrightarrow> (\<exists>r. s = p @ r)"
  unfolding HasPrefix_def
  by (metis append_eq_conv_conj append_take_drop_id length_append le_add1)

text \<open>
  The loop that collects the snapshot IDs returns them in mapping order when every
  mapping carries one, and panics otherwise.
\<close>

lemma snapshotIds_range_carried:
  "map snapshot_of bds = map Some ids \<Longrightarrow> snapshotIds_range bds acc = Inr (acc @ ids)"
proof (induction bds arbitrary: acc ids)
  case Nil
  then show ?case by simp
next
  case (Cons b bds)
  then obtain i ids' where ids: "ids = i # ids'" and b: "snapshot_of b = Some i"
    and rest: "map snapshot_of bds = map Some ids'"
    by (cases ids) auto
  from b show ?case
    using Cons.IH [OF rest, of "acc @ [i]"] ids
    by (auto simp: snapshot_of_def split: option.splits)
qed

lemma snapshotIds_range_panics:
  "\<not> list_all carries_snapshot bds \<Longrightarrow> snapshotIds_range bds acc = Inl NilPointerDereference"
  by (induction bds arbitrary: acc)
     (auto simp: carries_snapshot_def snapshot_of_def split: option.splits)

lemma carried_ex:
  "list_all carries_snapshot bds \<Longrightarrow> \<exists>ids. map snapshot_of bds = map Some ids"
proof (induction bds)
  case Nil
  then show ?case by simp
next
  case (Cons b bds)
  then obtain ids i where "map snapshot_of bds = map Some ids" "snapshot_of b = Some i"
    by (auto simp: carries_snapshot_def)
  then have "map snapshot_of (b # bds) = map Some (i # ids)" by simp
  then show ?case by blast
qed

text \<open>
  The tag that \<open>matchTags\<close> returns has the configured key and a value; on tags whose
  pointers are all set, \<open>matchTags\<close> does not panic.
\<close>

lemma matchTags_range_tag:
  "matchTags_range tags (Some t) = Inr (m, mt) \<Longrightarrow> Key t = Some k \<Longrightarrow>
     \<exists>x v. mt = Some x \<and> Key x = Some k \<and> Value x = Some v"
  by (induction tags) (auto split: option.splits if_splits)

lemma matchTags_range_wf:
  "list_all wf_Tag tags \<Longrightarrow> wf_Tag tag \<Longrightarrow> \<exists>m mt. matchTags_range tags tag = Inr (m, mt)"
  by (induction tags) (auto simp: wf_Tag_def split: option.splits)

text \<open>
  The loop that deletes the snapshots: in dry-run mode it logs one line per snapshot and
  calls nothing; with \<open>Delete\<close> set and a client whose \<open>DeleteSnapshot\<close> succeeds, it
  logs and calls once per snapshot, in order.
\<close>

lemma deleteSnapshots_dry_run:
  "\<not> Delete a \<Longrightarrow>
     deleteSnapshots a ids s =
       (None,
        s\<lparr>trace := trace s @
             map (\<lambda>i. Log InfoLevel ''would delete snapshot'' [zap_String ''snapshot-id'' i]) ids\<rparr>)"
  by (induction ids arbitrary: s) (simp_all add: Logger_log_def Let_def)

lemma deleteSnapshots_delete:
  assumes "Delete a" and "\<forall>w i. snd (fst (DeleteSnapshot (EC2Client a) w i)) = None"
  shows "fst (deleteSnapshots a ids s) = None \<and>
         trace (snd (deleteSnapshots a ids s)) =
           trace s @
           concat (map (\<lambda>i. [Log InfoLevel ''deleting snapshot'' [zap_String ''snapshot-id'' i],
                              CallDeleteSnapshot
                                \<lparr>DeleteDryRun = Some False, DeleteSnapshotId = Some i\<rparr>]) ids)"
proof (induction ids arbitrary: s)
  case Nil
  then show ?case by simp
next
  case (Cons i ids)
  let ?input = "\<lparr>DeleteDryRun = Some False, DeleteSnapshotId = Some i\<rparr>"
  obtain out err w where c: "DeleteSnapshot (EC2Client a) (world s) ?input = ((out, err), w)"
    by (metis surj_pair)
  with assms(2) have e: "err = None"
    by (metis fst_conv snd_conv)
  show ?case
    using assms(1) c e Cons.IH
    by (simp add: Logger_log_def called_def Let_def)
qed

subsection \<open>GetImages\<close>

text \<open>
  Claim C7. \<open>GetImages\<close> makes one call of \<open>DescribeImages\<close>, with \<open>Owners\<close> holding
  \<open>self\<close> only. When the call returns no error, \<open>GetImages\<close> returns the call's output
  and a \<open>nil\<close> error; when the call returns an error, \<open>GetImages\<close> returns \<open>nil\<close> and
  that error.
\<close>

theorem GetImages_result:
  assumes "DescribeImages (EC2Client a) (world s) \<lparr>Owners = [Some ''self'']\<rparr> = ((output, err), w)"
  shows "snd (GetImages a s) =
           \<lparr>world = w, trace = trace s @ [CallDescribeImages \<lparr>Owners = [Some ''self'']\<rparr>]\<rparr> \<and>
         (err = None \<longrightarrow> fst (GetImages a s) = (output, None)) \<and>
         (err \<noteq> None \<longrightarrow> fst (GetImages a s) = (None, err))"
  using assms by (simp add: GetImages_def called_def Let_def)

text \<open>
  The theorem of claim C7 at a client that succeeds and at a client that fails.
\<close>

theorem GetImages_result_witness:
  "GetImages (ex_clean ex_unused) ex_state =
     ((Some \<lparr>Images = [Some ex_image]\<rparr>, None),
      \<lparr>world = Suc 0, trace = [CallDescribeImages \<lparr>Owners = [Some ''self'']\<rparr>]\<rparr>) \<and>
   GetImages ((ex_clean ex_unused)\<lparr>EC2Client := ex_EC2 (Some \<lparr>Images = []\<rparr>, Some (Error ''RequestLimitExceeded'')) ex_unused\<rparr>) ex_state =
     ((None, Some (Error ''RequestLimitExceeded'')),
      \<lparr>world = Suc 0, trace = [CallDescribeImages \<lparr>Owners = [Some ''self'']\<rparr>]\<rparr>)"
proof -
  let ?ok = "ex_clean ex_unused"
  let ?ko = "(ex_clean ex_unused)\<lparr>EC2Client := ex_EC2 (Some \<lparr>Images = []\<rparr>, Some (Error ''RequestLimitExceeded'')) ex_unused\<rparr>"
  have ok: "DescribeImages (EC2Client ?ok) (world ex_state) \<lparr>Owners = [Some ''self'']\<rparr> =
              ((Some \<lparr>Images = [Some ex_image]\<rparr>, None), Suc 0)"
    by (simp add: ex_clean_def ex_EC2_def ex_state_def)
  have ko: "DescribeImages (EC2Client ?ko) (world ex_state) \<lparr>Owners = [Some ''self'']\<rparr> =
              ((Some \<lparr>Images = []\<rparr>, Some (Error ''RequestLimitExceeded'')), Suc 0)"
    by (simp add: ex_clean_def ex_EC2_def ex_state_def)
  show ?thesis
    using GetImages_result [OF ok] GetImages_result [OF ko]
    by (simp add: prod_eq_iff ex_state_def)
qed

subsection \<open>CheckUnused\<close>

text \<open>
  An image that \<open>CheckImage\<close> selects with \<open>Unused\<close> set has passed the usage check.
\<close>

lemma CheckImage_selected_unused:
  "fst (CheckImage tp a img s) = Inr True \<Longrightarrow> Unused a \<Longrightarrow>
     fst (CheckUnused a img s) = Inr (True, None)"
  by (auto simp: CheckImage_def CheckImage_unused_def Let_def
      split: option.splits if_splits prod.splits sum.splits)

text \<open>
  Claim C4. The client leaves the \<open>Reservations\<close> slice \<open>nil\<close> when the answer lists no
  reservation, so the slice of an output is \<open>nil\<close> or holds a reservation. On such an
  answer of the \<open>DescribeInstances\<close> query filtered on the image's ID, \<open>CheckUnused\<close>
  makes that one call and returns \<open>true\<close> with a \<open>nil\<close> error exactly when the query
  returns no error and lists no reservation. When the query returns an error,
  \<open>CheckUnused\<close> returns \<open>false\<close> and that error; when the query lists a reservation,
  \<open>CheckUnused\<close> returns \<open>false\<close> with a \<open>nil\<close> error, and \<open>CheckImage\<close> with \<open>Unused\<close> set
  does not return \<open>true\<close>. A \<open>nil\<close> output with a \<open>nil\<close> error panics.
\<close>

theorem CheckUnused_reports:
  assumes "DescribeInstances (EC2Client a) (world s)
             \<lparr>Filters = [Some \<lparr>FilterName = Some ''image-id'', Values = [ImageId img]\<rparr>]\<rparr>
           = ((output, err), w)"
    and "\<forall>out. output = Some out \<longrightarrow> Reservations out \<noteq> Some []"
  shows "snd (CheckUnused a img s) =
           \<lparr>world = w,
            trace = trace s @
              [CallDescribeInstances
                 \<lparr>Filters = [Some \<lparr>FilterName = Some ''image-id'', Values = [ImageId img]\<rparr>]\<rparr>]\<rparr> \<and>
         (fst (CheckUnused a img s) = Inr (True, None) \<longleftrightarrow>
            err = None \<and> (\<exists>out. output = Some out \<and> listed out = [])) \<and>
         (err \<noteq> None \<longrightarrow> fst (CheckUnused a img s) = Inr (False, err)) \<and>
         (err = None \<and> output = None \<longrightarrow>
            fst (CheckUnused a img s) = Inl NilPointerDereference) \<and>
         (\<forall>out. err = None \<and> output = Some out \<and> listed out \<noteq> [] \<longrightarrow>
            fst (CheckUnused a img s) = Inr (False, None) \<and>
            (Unused a \<longrightarrow> fst (CheckImage tp a img s) \<noteq> Inr True))"
proof -
  have st: "snd (CheckUnused a img s) =
           \<lparr>world = w,
            trace = trace s @
              [CallDescribeInstances
                 \<lparr>Filters = [Some \<lparr>FilterName = Some ''image-id'', Values = [ImageId img]\<rparr>]\<rparr>]\<rparr>"
    using assms(1) by (simp add: CheckUnused_def called_def Let_def split: option.splits)
  have iff: "fst (CheckUnused a img s) = Inr (True, None) \<longleftrightarrow>
            err = None \<and> (\<exists>out. output = Some out \<and> listed out = [])"
    using assms by (auto simp: CheckUnused_def listed_def Let_def split: option.splits)
  have failed: "fst (CheckUnused a img s) = Inr (False, err)" if "err \<noteq> None"
    using assms(1) that by (auto simp: CheckUnused_def Let_def)
  have absent: "fst (CheckUnused a img s) = Inl NilPointerDereference"
    if "err = None" "output = None"
    using assms(1) that by (simp add: CheckUnused_def Let_def)
  have used: "fst (CheckUnused a img s) = Inr (False, None)"
    if "err = None" "output = Some out" "listed out \<noteq> []" for out
    using assms(1) that by (auto simp: CheckUnused_def listed_def Let_def split: option.splits)
  have "fst (CheckImage tp a img s) \<noteq> Inr True"
    if "err = None" "output = Some out" "listed out \<noteq> []" "Unused a" for out
    using CheckImage_selected_unused [of tp a img s] used [OF that(1-3)] that(4) by auto
  with st iff failed absent used show ?thesis by blast
qed

text \<open>
  The theorem of claim C4 at an image no instance uses, at an image one instance uses,
  and at a query that fails.
\<close>

theorem CheckUnused_reports_witness:
  "fst (CheckUnused (ex_clean ex_unused) ex_image ex_state) = Inr (True, None) \<and>
   fst (CheckUnused (ex_clean ex_in_use) ex_image ex_state) = Inr (False, None) \<and>
   fst (CheckImage ex_time (ex_clean ex_in_use) ex_image ex_state) \<noteq> Inr True \<and>
   fst (CheckUnused (ex_clean ex_failed) ex_image ex_state)
     = Inr (False, Some (Error ''RequestLimitExceeded''))"
proof -
  have free: "DescribeInstances (EC2Client (ex_clean ex_unused)) (world ex_state)
             \<lparr>Filters = [Some \<lparr>FilterName = Some ''image-id'', Values = [ImageId ex_image]\<rparr>]\<rparr>
           = ((Some \<lparr>Reservations = None\<rparr>, None), Suc 0)"
    by (simp add: ex_EC2_def ex_clean_def ex_state_def ex_unused_def)
  have used: "DescribeInstances (EC2Client (ex_clean ex_in_use)) (world ex_state)
             \<lparr>Filters = [Some \<lparr>FilterName = Some ''image-id'', Values = [ImageId ex_image]\<rparr>]\<rparr>
           = ((Some \<lparr>Reservations = Some [Some \<lparr>Instances = [Some \<lparr>InstanceId = Some ''i-1''\<rparr>]\<rparr>]\<rparr>,
               None), Suc 0)"
    by (simp add: ex_EC2_def ex_clean_def ex_state_def ex_in_use_def)
  have failed: "DescribeInstances (EC2Client (ex_clean ex_failed)) (world ex_state)
             \<lparr>Filters = [Some \<lparr>FilterName = Some ''image-id'', Values = [ImageId ex_image]\<rparr>]\<rparr>
           = ((Some \<lparr>Reservations = None\<rparr>, Some (Error ''RequestLimitExceeded'')), Suc 0)"
    by (simp add: ex_EC2_def ex_clean_def ex_state_def ex_failed_def)
  have n1: "\<forall>out. Some \<lparr>Reservations = None\<rparr> = Some out \<longrightarrow> Reservations out \<noteq> Some []"
    by auto
  have n2: "\<forall>out. Some \<lparr>Reservations = Some [Some \<lparr>Instances = [Some \<lparr>InstanceId = Some ''i-1''\<rparr>]\<rparr>]\<rparr>
              = Some out \<longrightarrow> Reservations out \<noteq> Some []"
    by auto
  have u: "Unused (ex_clean ex_in_use)"
    by (simp add: ex_clean_def)
  show ?thesis
    using CheckUnused_reports [OF free n1, of ex_time]
      CheckUnused_reports [OF used n2, of ex_time]
      CheckUnused_reports [OF failed n1, of ex_time] u
    by (simp add: listed_def)
qed

subsection \<open>CheckImage\<close>

text \<open>
  The two later parts of \<open>CheckImage\<close> return \<open>true\<close> exactly when their checks pass.
\<close>

lemma CheckImage_tags_true_iff:
  assumes "Name img = Some name" and "ImageId img = Some iid"
    and "Tag a = Some t" and "Key t = Some k"
  shows "fst (CheckImage_tags tp a img ict s) = Inr True \<longleftrightarrow>
           (\<exists>match matchedTag. matchTags img (Tag a) = Inr (match, matchedTag) \<and> match \<noteq> Invert a)"
proof (cases "matchTags img (Tag a)")
  case (Inl p)
  then show ?thesis by (simp add: CheckImage_tags_def)
next
  case (Inr r)
  obtain m mt where r: "r = (m, mt)" by (cases r)
  from Inr r assms obtain x v where "mt = Some x" "Key x = Some k" "Value x = Some v"
    using matchTags_range_tag [of "Tags img" t m mt k] by (auto simp: matchTags_def)
  with Inr r assms show ?thesis
    by (auto simp: CheckImage_tags_def)
qed

lemma CheckImage_unused_true_iff:
  assumes "Name img = Some name" and "ImageId img = Some iid"
    and "Tag a = Some t" and "Key t = Some k"
  shows "fst (CheckImage_unused tp a img ict s) = Inr True \<longleftrightarrow>
           (Unused a \<longrightarrow> fst (CheckUnused a img s) = Inr (True, None)) \<and>
           (\<exists>match matchedTag. matchTags img (Tag a) = Inr (match, matchedTag) \<and> match \<noteq> Invert a)"
proof (cases "Unused a")
  case False
  then show ?thesis
    using CheckImage_tags_true_iff [OF assms, of tp ict s]
    by (simp add: CheckImage_unused_def)
next
  case True
  obtain r s1 where c: "CheckUnused a img s = (r, s1)" by (cases "CheckUnused a img s")
  show ?thesis
  proof (cases r)
    case (Inl p)
    with True c show ?thesis by (simp add: CheckImage_unused_def)
  next
    case (Inr ue)
    obtain u e where ue: "ue = (u, e)" by (cases ue)
    show ?thesis
    proof (cases e)
      case (Some err)
      with True c Inr ue assms show ?thesis by (simp add: CheckImage_unused_def)
    next
      case None
      with True c Inr ue show ?thesis
        using CheckImage_tags_true_iff [OF assms, of tp ict s1]
        by (cases u) (simp_all add: CheckImage_unused_def)
    qed
  qed
qed

text \<open>
  Claim C1. For an image with a name, a creation date and an ID, and a configured tag
  with a key, \<open>CheckImage\<close> returns \<open>true\<close> if and only if the name starts with
  \<open>NamePrefix\<close>, the parsed creation date is not after \<open>ExpirationDate\<close>, the usage
  check returns \<open>true\<close> with a \<open>nil\<close> error when \<open>Unused\<close> is set, and \<open>matchTags\<close>
  returns a match that differs from \<open>Invert\<close>.
\<close>

theorem CheckImage_true_iff:
  assumes "Name img = Some name" and "CreationDate img = Some cd" and "ImageId img = Some iid"
    and "Tag a = Some t" and "Key t = Some k"
  shows "fst (CheckImage tp a img s) = Inr True \<longleftrightarrow>
           HasPrefix name (NamePrefix a) \<and>
           \<not> After (fst (time_Parse tp RFC8601 cd)) (ExpirationDate a) \<and>
           (Unused a \<longrightarrow> fst (CheckUnused a img s) = Inr (True, None)) \<and>
           (\<exists>match matchedTag. matchTags img (Tag a) = Inr (match, matchedTag) \<and> match \<noteq> Invert a)"
  using CheckImage_unused_true_iff [OF assms(1) assms(3) assms(4) assms(5), of tp "fst (time_Parse tp RFC8601 cd)" s] assms(1) assms(2)
  by (simp add: CheckImage_def Let_def)

text \<open>
  The theorem of claim C1 at an image that passes every check.
\<close>

theorem CheckImage_true_iff_witness:
  "fst (CheckImage ex_time (ex_clean (Some \<lparr>Reservations = None\<rparr>, None)) ex_image ex_state)
     = Inr True"
proof -
  let ?a = "ex_clean (Some \<lparr>Reservations = None\<rparr>, None)"
  have n: "Name ex_image = Some ''app-master-42''"
    and c: "CreationDate ex_image = Some ''2019-03-01T12:00:00.000Z''"
    and i: "ImageId ex_image = Some ''ami-1''"
    and t: "Tag ?a = Some \<lparr>Key = Some ''Branch'', Value = Some ''master''\<rparr>"
    and k: "Key \<lparr>Key = Some ''Branch'', Value = Some ''master''\<rparr> = Some ''Branch''"
    by (simp_all add: ex_time_def ex_image_def ex_EC2_def ex_clean_def ex_state_def)
  show ?thesis
    unfolding CheckImage_true_iff [OF n c i t k]
    by (auto simp: ex_time_def ex_image_def ex_EC2_def ex_clean_def ex_state_def HasPrefix_def After_def time_Parse_def RFC8601_def CheckUnused_def
        called_def matchTags_def)
qed

text \<open>
  Claim C8. When \<open>Unused\<close> is set and the usage check returns an error, \<open>CheckImage\<close>
  returns \<open>false\<close> for an image with a name, a creation date and an ID.
\<close>

theorem CheckImage_usage_error:
  assumes "Unused a" and "fst (CheckUnused a img s) = Inr (unused, Some e)"
    and "Name img = Some name" and "CreationDate img = Some cd" and "ImageId img = Some iid"
  shows "fst (CheckImage tp a img s) = Inr False"
  using assms
  by (auto simp: CheckImage_def CheckImage_unused_def Let_def split: prod.splits sum.splits)

text \<open>
  The theorem of claim C8 at a client whose \<open>DescribeInstances\<close> fails.
\<close>

theorem CheckImage_usage_error_witness:
  "fst (CheckImage ex_time (ex_clean ex_failed) ex_image ex_state) = Inr False"
proof -
  have u: "Unused (ex_clean ex_failed)"
    and c: "fst (CheckUnused (ex_clean ex_failed) ex_image ex_state)
              = Inr (False, Some (Error ''RequestLimitExceeded''))"
    and n: "Name ex_image = Some ''app-master-42''"
    and d: "CreationDate ex_image = Some ''2019-03-01T12:00:00.000Z''"
    and i: "ImageId ex_image = Some ''ami-1''"
    by (simp_all add: ex_time_def ex_image_def ex_EC2_def ex_clean_def ex_state_def ex_failed_def CheckUnused_def called_def Let_def)
  show ?thesis
    by (rule CheckImage_usage_error [OF u c n d i])
qed

text \<open>
  Claim C9. When the creation date of an image does not parse in the layout \<open>RFC8601\<close>,
  \<open>CheckImage\<close> drops the error of \<open>time.Parse\<close> and takes the zero time as the creation
  time: for an \<open>ExpirationDate\<close> that is not before the zero time the age check passes,
  and \<open>CheckImage\<close> goes on to the usage check and the tags with the zero time, without
  any logger call and without returning.
\<close>

theorem CheckImage_unparsed_date:
  assumes "Name img = Some name" and "HasPrefix name (NamePrefix a)"
    and "CreationDate img = Some cd" and "snd (time_Parse tp RFC8601 cd) \<noteq> None"
    and "\<not> ExpirationDate a < zeroTime"
  shows "fst (time_Parse tp RFC8601 cd) = zeroTime \<and>
         \<not> After zeroTime (ExpirationDate a) \<and>
         CheckImage tp a img s = CheckImage_unused tp a img zeroTime s"
proof -
  from assms(4) have z: "fst (time_Parse tp RFC8601 cd) = zeroTime"
    by (simp add: time_Parse_def split: option.splits)
  from assms(5) have n: "\<not> After zeroTime (ExpirationDate a)"
    by (simp add: After_def)
  from z n assms(1-3) show ?thesis
    by (simp add: CheckImage_def Let_def)
qed

text \<open>
  The theorem of claim C9 at an image whose creation date is not in the layout; the
  image is selected.
\<close>

theorem CheckImage_unparsed_date_witness:
  "fst (time_Parse ex_time RFC8601 ''2019-03-01'') = zeroTime \<and>
   \<not> After zeroTime (ExpirationDate (ex_clean ex_unused)) \<and>
   CheckImage ex_time (ex_clean ex_unused) ex_image_undated ex_state =
     CheckImage_unused ex_time (ex_clean ex_unused) ex_image_undated zeroTime ex_state \<and>
   fst (CheckImage ex_time (ex_clean ex_unused) ex_image_undated ex_state) = Inr True"
proof -
  have n: "Name ex_image_undated = Some ''app-master-42''"
    and p: "HasPrefix ''app-master-42'' (NamePrefix (ex_clean ex_unused))"
    and d: "CreationDate ex_image_undated = Some ''2019-03-01''"
    and e: "snd (time_Parse ex_time RFC8601 ''2019-03-01'') \<noteq> None"
    and x: "\<not> ExpirationDate (ex_clean ex_unused) < zeroTime"
    by (simp_all add: ex_time_def ex_image_def ex_image_undated_def ex_EC2_def ex_clean_def ex_state_def ex_unused_def HasPrefix_def time_Parse_def RFC8601_def zeroTime_def)
  have "fst (CheckImage_unused ex_time (ex_clean ex_unused) ex_image_undated zeroTime ex_state)
          = Inr True"
    by (simp add: ex_time_def ex_image_def ex_image_undated_def ex_EC2_def ex_clean_def ex_state_def ex_unused_def CheckImage_unused_def CheckImage_tags_def CheckUnused_def called_def
        matchTags_def Let_def)
  with CheckImage_unparsed_date [OF n p d e x, of ex_state] show ?thesis
    by simp
qed

text \<open>
  On tags whose pointers are all set, the last part of \<open>CheckImage\<close> returns whether
  the match differs from \<open>Invert\<close>; \<open>CheckUnused\<close> does not read \<open>Invert\<close>.
\<close>

lemma CheckImage_tags_wf:
  assumes "Name img = Some name" and "ImageId img = Some iid"
    and "list_all wf_Tag (Tags img)" and "wf_Tag (Tag a)"
  shows "\<exists>match matchedTag. matchTags img (Tag a) = Inr (match, matchedTag) \<and>
           fst (CheckImage_tags tp a img ict s) = Inr (match \<noteq> Invert a)"
proof -
  from assms(3,4) obtain m mt where r: "matchTags_range (Tags img) (Tag a) = Inr (m, mt)"
    using matchTags_range_wf by blast
  from assms(4) obtain t k where t: "Tag a = Some t" "Key t = Some k"
    by (auto simp: wf_Tag_def split: option.splits)
  from r t obtain x v where "mt = Some x" "Key x = Some k" "Value x = Some v"
    using matchTags_range_tag [of "Tags img" t m mt k] by auto
  with r assms(1,2) show ?thesis
    by (auto simp: CheckImage_tags_def matchTags_def)
qed

lemma CheckUnused_Invert [simp]: "CheckUnused (a\<lparr>Invert := b\<rparr>) img s = CheckUnused a img s"
  by (simp add: CheckUnused_def Let_def)

text \<open>
  Claim C6. For an image that passes the name-prefix check, the age check and, when
  \<open>Unused\<close> is set, the usage check, \<open>CheckImage\<close> with \<open>Invert\<close> set returns the negation
  of what \<open>CheckImage\<close> returns with \<open>Invert\<close> not set, the rest of the configuration, the
  image and the state of the cloud being the same. The image has a name, a creation date
  and an ID, and the pointers of its tags and of the configured tag are set.
\<close>

theorem CheckImage_Invert_negates:
  assumes "Name img = Some name" and "CreationDate img = Some cd" and "ImageId img = Some iid"
    and "list_all wf_Tag (Tags img)" and "wf_Tag (Tag a)"
    and "HasPrefix name (NamePrefix a)"
    and "\<not> After (fst (time_Parse tp RFC8601 cd)) (ExpirationDate a)"
    and "Unused a \<longrightarrow> fst (CheckUnused a img s) = Inr (True, None)"
  shows "\<exists>b. fst (CheckImage tp (a\<lparr>Invert := True\<rparr>) img s) = Inr b \<and>
             fst (CheckImage tp (a\<lparr>Invert := False\<rparr>) img s) = Inr (\<not> b)"
proof -
  let ?ict = "fst (time_Parse tp RFC8601 cd)"
  have tags: "\<exists>match matchedTag. matchTags img (Tag a) = Inr (match, matchedTag) \<and>
           fst (CheckImage_tags tp (a\<lparr>Invert := b\<rparr>) img ?ict s') = Inr (match \<noteq> b)" for b s'
    using CheckImage_tags_wf [of img name iid "a\<lparr>Invert := b\<rparr>" tp ?ict s'] assms(1,3,4,5)
    by simp
  have unused: "\<exists>s'. fst (CheckImage_unused tp (a\<lparr>Invert := b\<rparr>) img ?ict s)
                  = fst (CheckImage_tags tp (a\<lparr>Invert := b\<rparr>) img ?ict s')" for b
    using assms(8)
    by (cases "CheckUnused a img s") (auto simp: CheckImage_unused_def)
  have img: "fst (CheckImage tp (a\<lparr>Invert := b\<rparr>) img s)
               = fst (CheckImage_unused tp (a\<lparr>Invert := b\<rparr>) img ?ict s)" for b
    using assms(1,2,6,7) by (simp add: CheckImage_def Let_def)
  obtain m mt where m: "matchTags img (Tag a) = Inr (m, mt)"
    using tags by blast
  have "fst (CheckImage tp (a\<lparr>Invert := b\<rparr>) img s) = Inr (m \<noteq> b)" for b
    using tags [of b] unused [of b] img [of b] m by (metis Inr_inject prod.inject)
  then show ?thesis by simp
qed

text \<open>
  The theorem of claim C6 at an image whose tag matches.
\<close>

theorem CheckImage_Invert_negates_witness:
  "fst (CheckImage ex_time ((ex_clean ex_unused)\<lparr>Invert := True\<rparr>) ex_image ex_state) = Inr False \<and>
   fst (CheckImage ex_time ((ex_clean ex_unused)\<lparr>Invert := False\<rparr>) ex_image ex_state) = Inr True"
proof -
  let ?a = "ex_clean ex_unused"
  have n: "Name ex_image = Some ''app-master-42''"
    and d: "CreationDate ex_image = Some ''2019-03-01T12:00:00.000Z''"
    and i: "ImageId ex_image = Some ''ami-1''"
    and t: "list_all wf_Tag (Tags ex_image)"
    and c: "wf_Tag (Tag ?a)"
    and p: "HasPrefix ''app-master-42'' (NamePrefix ?a)"
    and x: "\<not> After (fst (time_Parse ex_time RFC8601 ''2019-03-01T12:00:00.000Z''))
              (ExpirationDate ?a)"
    and u: "Unused ?a \<longrightarrow> fst (CheckUnused ?a ex_image ex_state) = Inr (True, None)"
    by (simp_all add: ex_time_def ex_image_def ex_EC2_def ex_clean_def ex_state_def ex_unused_def wf_Tag_def HasPrefix_def time_Parse_def RFC8601_def After_def
        CheckUnused_def called_def Let_def)
  have "fst (CheckImage ex_time (?a\<lparr>Invert := False\<rparr>) ex_image ex_state) = Inr True"
    by (simp add: ex_time_def ex_image_def ex_EC2_def ex_clean_def ex_state_def ex_unused_def CheckImage_def CheckImage_unused_def CheckImage_tags_def
        CheckUnused_def called_def matchTags_def HasPrefix_def time_Parse_def RFC8601_def
        After_def Let_def)
  with CheckImage_Invert_negates [OF n d i t c p x u] show ?thesis
    by auto
qed

subsection \<open>PurgeImage\<close>

text \<open>
  Claim C5. For an image with an ID whose \<open>RootDeviceType\<close> is not \<open>ebs\<close>,
  \<open>PurgeImage\<close> returns the image's ID with a \<open>nil\<close> error, whatever \<open>Delete\<close> is; it
  makes one logger call, no call of the client, and leaves the cloud as it is.
\<close>

theorem PurgeImage_not_ebs:
  assumes "RootDeviceType img = Some rootDeviceType" and "rootDeviceType \<noteq> ''ebs''"
    and "ImageId img = Some iid"
  shows "PurgeImage a img s =
           (Inr (iid, None),
            s\<lparr>trace := trace s @
                 [Log InfoLevel ''image root device not EBS; will not purge''
                    [zap_String ''ami-id'' iid]]\<rparr>)"
  using assms by (simp add: PurgeImage_def Logger_log_def)

text \<open>
  The theorem of claim C5 at an instance-store image, with \<open>Delete\<close> set.
\<close>

theorem PurgeImage_not_ebs_witness:
  "PurgeImage ((ex_clean ex_unused)\<lparr>Delete := True\<rparr>) ex_image_instance_store ex_state =
     (Inr (''ami-1'', None),
      \<lparr>world = 0,
       trace = [Log InfoLevel ''image root device not EBS; will not purge''
                  [zap_String ''ami-id'' ''ami-1'']]\<rparr>)"
proof -
  have r: "RootDeviceType ex_image_instance_store = Some ''instance-store''"
    and n: "''instance-store'' \<noteq> ''ebs''"
    and i: "ImageId ex_image_instance_store = Some ''ami-1''"
    by (simp_all add: ex_image_def ex_image_instance_store_def ex_EC2_def ex_clean_def ex_state_def ex_unused_def)
  show ?thesis
    unfolding PurgeImage_not_ebs [OF r n i]
    by (simp add: ex_image_def ex_image_instance_store_def ex_EC2_def ex_clean_def ex_state_def ex_unused_def)
qed

text \<open>
  Claim C10. For an image whose \<open>RootDeviceType\<close> is \<open>ebs\<close>, \<open>PurgeImage\<close> dereferences
  \<open>Ebs\<close> and \<open>SnapshotId\<close> of every block device mapping: it is free of a nil-pointer
  dereference only if every mapping carries a snapshot ID, it panics before any logger
  or client call when some mapping does not, and it is free of the panic when every
  mapping carries a snapshot ID and the image has an ID.
\<close>

theorem PurgeImage_nil_dereference:
  assumes "RootDeviceType img = Some ''ebs''"
  shows "(fst (PurgeImage a img s) \<noteq> Inl NilPointerDereference \<longrightarrow>
            list_all carries_snapshot (BlockDeviceMappings img)) \<and>
         (\<not> list_all carries_snapshot (BlockDeviceMappings img) \<longrightarrow>
            PurgeImage a img s = (Inl NilPointerDereference, s)) \<and>
         (list_all carries_snapshot (BlockDeviceMappings img) \<and> ImageId img \<noteq> None \<longrightarrow>
            fst (PurgeImage a img s) \<noteq> Inl NilPointerDereference)"
proof -
  have bad: "PurgeImage a img s = (Inl NilPointerDereference, s)"
    if "\<not> list_all carries_snapshot (BlockDeviceMappings img)"
    using assms snapshotIds_range_panics [OF that, of "[]"] by (simp add: PurgeImage_def)
  have good: "fst (PurgeImage a img s) \<noteq> Inl NilPointerDereference"
    if c: "list_all carries_snapshot (BlockDeviceMappings img)" and i: "ImageId img \<noteq> None"
  proof -
    from c obtain ids where "map snapshot_of (BlockDeviceMappings img) = map Some ids"
      using carried_ex by blast
    then have "snapshotIds_range (BlockDeviceMappings img) [] = Inr ids"
      using snapshotIds_range_carried [of "BlockDeviceMappings img" ids "[]"] by simp
    with assms i show ?thesis
      by (auto simp: PurgeImage_def PurgeImage_snapshots_def Let_def split: prod.splits option.splits)
  qed
  have nec: "list_all carries_snapshot (BlockDeviceMappings img)"
    if ok: "fst (PurgeImage a img s) \<noteq> Inl NilPointerDereference"
  proof (rule ccontr)
    assume "\<not> list_all carries_snapshot (BlockDeviceMappings img)"
    then have "fst (PurgeImage a img s) = Inl NilPointerDereference"
      using bad by simp
    with ok show False by simp
  qed
  from nec bad good show ?thesis by blast
qed

text \<open>
  The theorem of claim C10 at an image with an ephemeral mapping, which has no \<open>Ebs\<close>
  member, and at an image whose mappings all carry a snapshot ID.
\<close>

theorem PurgeImage_nil_dereference_witness:
  "\<not> list_all carries_snapshot (BlockDeviceMappings ex_image_ephemeral) \<and>
   PurgeImage (ex_clean ex_unused) ex_image_ephemeral ex_state
     = (Inl NilPointerDereference, ex_state) \<and>
   list_all carries_snapshot (BlockDeviceMappings ex_image) \<and>
   fst (PurgeImage (ex_clean ex_unused) ex_image ex_state) \<noteq> Inl NilPointerDereference"
proof -
  have e: "RootDeviceType ex_image_ephemeral = Some ''ebs''"
    and r: "RootDeviceType ex_image = Some ''ebs''"
    and n: "\<not> list_all carries_snapshot (BlockDeviceMappings ex_image_ephemeral)"
    and c: "list_all carries_snapshot (BlockDeviceMappings ex_image)"
    and i: "ImageId ex_image \<noteq> None"
    by (simp_all add: ex_image_def ex_image_ephemeral_def ex_EC2_def ex_clean_def ex_state_def ex_unused_def carries_snapshot_def snapshot_of_def)
  show ?thesis
    using PurgeImage_nil_dereference [OF e, of "ex_clean ex_unused" ex_state]
      PurgeImage_nil_dereference [OF r, of "ex_clean ex_unused" ex_state] n c i
    by simp
qed

text \<open>
  What \<open>PurgeImage\<close> does on an image whose \<open>RootDeviceType\<close> is \<open>ebs\<close> and whose
  mappings all carry a snapshot ID. In dry-run mode it logs the intended actions and
  returns the image's ID; in dry-run mode on any image it calls nothing. With \<open>Delete\<close>
  set and a client whose calls succeed, it deregisters the image, then deletes the
  snapshots of the mappings, one call per mapping in mapping order, and returns the
  image's ID.
\<close>

lemma PurgeImage_dry_run:
  assumes "\<not> Delete a" and "RootDeviceType img = Some ''ebs''" and "ImageId img = Some iid"
    and "map snapshot_of (BlockDeviceMappings img) = map Some ids"
  shows "PurgeImage a img s =
           (Inr (iid, None),
            s\<lparr>trace := trace s @
                 Log InfoLevel ''would deregister ami'' [zap_String ''ami-id'' iid] #
                 map (\<lambda>i. Log InfoLevel ''would delete snapshot'' [zap_String ''snapshot-id'' i])
                   ids\<rparr>)"
  using assms snapshotIds_range_carried [OF assms(4), of "[]"]
  by (simp add: PurgeImage_def PurgeImage_snapshots_def deleteSnapshots_dry_run Logger_log_def
      Let_def)

lemma PurgeImage_dry_run_no_calls:
  assumes "\<not> Delete a"
  shows "world (snd (PurgeImage a img s)) = world s \<and>
         (\<exists>logs. trace (snd (PurgeImage a img s)) = trace s @ logs \<and>
                 list_all (\<lambda>e. \<not> is_call e) logs)"
proof (cases "RootDeviceType img")
  case None
  then show ?thesis by (simp add: PurgeImage_def)
next
  case (Some r)
  show ?thesis
  proof (cases "r = ''ebs''")
    case False
    with Some show ?thesis
      by (cases "ImageId img") (simp_all add: PurgeImage_def Logger_log_def is_call_def)
  next
    case True
    show ?thesis
    proof (cases "snapshotIds_range (BlockDeviceMappings img) []")
      case (Inl p)
      with Some True show ?thesis by (simp add: PurgeImage_def)
    next
      case (Inr ids)
      have "list_all (\<lambda>e. \<not> is_call e)
              (map (\<lambda>i. Log InfoLevel ''would delete snapshot'' [zap_String ''snapshot-id'' i]) ids)"
        by (simp add: list_all_iff is_call_def)
      with Some True Inr assms show ?thesis
        by (cases "ImageId img")
           (simp_all add: PurgeImage_def PurgeImage_snapshots_def deleteSnapshots_dry_run
              Logger_log_def Let_def is_call_def)
    qed
  qed
qed

lemma PurgeImage_delete:
  assumes "Delete a" and "RootDeviceType img = Some ''ebs''" and "ImageId img = Some iid"
    and "map snapshot_of (BlockDeviceMappings img) = map Some ids"
    and "\<forall>w i. snd (fst (DeregisterImage (EC2Client a) w i)) = None"
    and "\<forall>w i. snd (fst (DeleteSnapshot (EC2Client a) w i)) = None"
  shows "fst (PurgeImage a img s) = Inr (iid, None) \<and>
         trace (snd (PurgeImage a img s)) =
           trace s @
           [Log InfoLevel ''deregistering ami'' [zap_String ''ami-id'' iid],
            CallDeregisterImage \<lparr>DeregisterDryRun = Some False, DeregisterImageId = Some iid\<rparr>] @
           concat (map (\<lambda>i. [Log InfoLevel ''deleting snapshot'' [zap_String ''snapshot-id'' i],
                              CallDeleteSnapshot
                                \<lparr>DeleteDryRun = Some False, DeleteSnapshotId = Some i\<rparr>]) ids)"
proof -
  let ?input = "\<lparr>DeregisterDryRun = Some False, DeregisterImageId = Some iid\<rparr>"
  obtain out err w where c: "DeregisterImage (EC2Client a) (world s) ?input = ((out, err), w)"
    by (metis surj_pair)
  with assms(5) have e: "err = None"
    by (metis fst_conv snd_conv)
  let ?s2 = "\<lparr>world = w,
             trace = trace s @ [Log InfoLevel ''deregistering ami'' [zap_String ''ami-id'' iid],
                                CallDeregisterImage ?input]\<rparr>"
  have p: "PurgeImage a img s = PurgeImage_snapshots a iid ids ?s2"
    using assms(1-3) c e snapshotIds_range_carried [OF assms(4), of "[]"]
    by (simp add: PurgeImage_def Logger_log_def called_def Let_def)
  obtain r s' where d: "deleteSnapshots a ids ?s2 = (r, s')"
    by (metis surj_pair)
  with deleteSnapshots_delete [OF assms(1) assms(6), of ids ?s2]
  have "r = None" and "trace s' = trace ?s2 @
           concat (map (\<lambda>i. [Log InfoLevel ''deleting snapshot'' [zap_String ''snapshot-id'' i],
                              CallDeleteSnapshot
                                \<lparr>DeleteDryRun = Some False, DeleteSnapshotId = Some i\<rparr>]) ids)"
    by simp_all
  with p d show ?thesis
    by (simp add: PurgeImage_snapshots_def)
qed

lemma PurgeImage_dry_run_example:
  "PurgeImage (ex_clean ex_unused) ex_image ex_state =
     (Inr (''ami-1'', None),
      \<lparr>world = 0,
       trace =
         [Log InfoLevel ''would deregister ami'' [zap_String ''ami-id'' ''ami-1''],
          Log InfoLevel ''would delete snapshot'' [zap_String ''snapshot-id'' ''snap-1''],
          Log InfoLevel ''would delete snapshot'' [zap_String ''snapshot-id'' ''snap-2'']]\<rparr>)"
  by (simp add: ex_image_def ex_EC2_def ex_clean_def ex_state_def ex_unused_def PurgeImage_def PurgeImage_snapshots_def Logger_log_def called_def
      Let_def)

lemma PurgeImage_delete_example:
  "PurgeImage ((ex_clean ex_unused)\<lparr>Delete := True\<rparr>) ex_image ex_state =
     (Inr (''ami-1'', None),
      \<lparr>world = 3,
       trace =
         [Log InfoLevel ''deregistering ami'' [zap_String ''ami-id'' ''ami-1''],
          CallDeregisterImage \<lparr>DeregisterDryRun = Some False, DeregisterImageId = Some ''ami-1''\<rparr>,
          Log InfoLevel ''deleting snapshot'' [zap_String ''snapshot-id'' ''snap-1''],
          CallDeleteSnapshot \<lparr>DeleteDryRun = Some False, DeleteSnapshotId = Some ''snap-1''\<rparr>,
          Log InfoLevel ''deleting snapshot'' [zap_String ''snapshot-id'' ''snap-2''],
          CallDeleteSnapshot \<lparr>DeleteDryRun = Some False, DeleteSnapshotId = Some ''snap-2''\<rparr>]\<rparr>)"
  by (simp add: ex_image_def ex_EC2_def ex_clean_def ex_state_def ex_unused_def PurgeImage_def PurgeImage_snapshots_def Logger_log_def called_def
      Let_def eval_nat_numeral)

text \<open>
  Claim C2. The claim holds on the images above, and fails on an image whose
  \<open>RootDeviceType\<close> is \<open>ebs\<close> and which has a mapping without an \<open>Ebs\<close> member (an
  ephemeral device): in dry-run mode \<open>PurgeImage\<close> panics on the nil-pointer dereference
  and does not return the image's ID.
\<close>

theorem PurgeImage_dry_run_ephemeral:
  "\<not> Delete (ex_clean ex_unused) \<and>
   RootDeviceType ex_image_ephemeral = Some ''ebs'' \<and>
   ImageId ex_image_ephemeral = Some ''ami-1'' \<and>
   fst (PurgeImage (ex_clean ex_unused) ex_image_ephemeral ex_state)
     = Inl NilPointerDereference"
  by (simp add: ex_image_def ex_image_ephemeral_def ex_EC2_def ex_clean_def ex_state_def ex_unused_def PurgeImage_def)

text \<open>
  Claim C3. The claim holds on the images above, and fails on the same image with
  \<open>Delete\<close> set: the first mapping names the snapshot \<open>snap-1\<close>, the second names
  none, and \<open>PurgeImage\<close> panics before it deregisters the image or deletes a snapshot.
\<close>

theorem PurgeImage_delete_ephemeral:
  "Delete ((ex_clean ex_unused)\<lparr>Delete := True\<rparr>) \<and>
   RootDeviceType ex_image_ephemeral = Some ''ebs'' \<and>
   map snapshot_of (BlockDeviceMappings ex_image_ephemeral) = [Some ''snap-1'', None] \<and>
   PurgeImage ((ex_clean ex_unused)\<lparr>Delete := True\<rparr>) ex_image_ephemeral ex_state
     = (Inl NilPointerDereference, ex_state)"
  by (simp add: ex_image_def ex_image_ephemeral_def ex_EC2_def ex_clean_def ex_state_def ex_unused_def PurgeImage_def snapshot_of_def)

end
